theory Spec2Isabelle
  imports Complex_Main "HOL-Library.Log_Nat"
begin

section \<open>Numbers of the host language\<close>

text \<open>
  A JavaScript number is an IEEE 754 binary64 value. The update logic only subtracts,
  adds and compares numbers, and every subtraction and addition rounds its exact result
  to the nearest binary64 value, ties to the even significand. The model keeps that
  rounding: a \<open>double\<close> is a rational number of the form \<open>m * 2^e\<close> with
  \<open>|m| < 2^53\<close> and \<open>e >= -1074\<close>, and \<open>fadd\<close> and \<open>fsub\<close> round as the machine does.
  A decimal literal such as \<open>0.001\<close> denotes the nearest double, \<open>toDouble 0.001\<close>.

  Outside the model: overflow to an infinity (the exponent has no upper bound here), NaN,
  and the sign of zero (\<open>-0\<close> and \<open>+0\<close> are one value). The one special value that the
  update logic can itself produce from finite input, \<open>-Infinity\<close> (from \<open>Math.max()\<close>
  of no arguments), is kept: \<open>totalLength\<close> has the type \<open>number\<close> below.
\<close>

text \<open>Rounding to the nearest integer, ties to even.\<close>

definition roundHalfEven :: "rat \<Rightarrow> int" where
  "roundHalfEven x =
     (let f = \<lfloor>x\<rfloor>; r = x - of_int f
      in if r < 1/2 then f else if 1/2 < r then f + 1 else if even f then f else f + 1)"

text \<open>The binary exponent of a positive rational: \<open>2^(ilog2 x) <= x < 2^(ilog2 x + 1)\<close>.\<close>

definition ilog2 :: "rat \<Rightarrow> int" where
  "ilog2 x = (case quotient_of x of (p, q) \<Rightarrow>
     (let k = bitlen p - bitlen q in if 2 powi k \<le> x then k else k - 1))"

text \<open>The exponent of the last place of the binary64 format at \<open>x\<close>: 53 significant
  bits, and the spacing \<open>2^-1074\<close> of the subnormal numbers as the finest.\<close>

definition ulpExponent :: "rat \<Rightarrow> int" where
  "ulpExponent x = max (ilog2 \<bar>x\<bar> - 52) (- 1074)"

definition roundToDouble :: "rat \<Rightarrow> rat" where
  "roundToDouble x =
     (if x = 0 then 0
      else of_int (roundHalfEven (x / 2 powi ulpExponent x)) * 2 powi ulpExponent x)"

definition is_double :: "rat \<Rightarrow> bool" where
  "is_double x \<longleftrightarrow> (\<exists>m e. \<bar>m\<bar> < 2 ^ 53 \<and> - 1074 \<le> e \<and> x = of_int m * 2 powi e)"

typedef double = "{x :: rat. is_double x}"
  morphisms val Abs_double
proof
  have "\<bar>0::int\<bar> < 2 ^ 53 \<and> - 1074 \<le> (0::int) \<and> (0::rat) = of_int 0 * 2 powi 0"
    by simp
  then show "0 \<in> {x :: rat. is_double x}"
    unfolding is_double_def by blast
qed

definition toDouble :: "rat \<Rightarrow> double" where
  "toDouble x = Abs_double (roundToDouble x)"

text \<open>The operators \<open>+\<close> and \<open>-\<close> of the host language on numbers.\<close>

definition fadd :: "double \<Rightarrow> double \<Rightarrow> double" where
  "fadd x y = toDouble (val x + val y)"

definition fsub :: "double \<Rightarrow> double \<Rightarrow> double" where
  "fsub x y = toDouble (val x - val y)"

text \<open>Comparison and equality of numbers are those of their values.\<close>

instantiation double :: linorder
begin

definition less_eq_double :: "double \<Rightarrow> double \<Rightarrow> bool" where
  "less_eq_double x y \<longleftrightarrow> val x \<le> val y"

definition less_double :: "double \<Rightarrow> double \<Rightarrow> bool" where
  "less_double x y \<longleftrightarrow> val x < val y"

instance
proof
  fix x y z :: double
  show "x < y \<longleftrightarrow> x \<le> y \<and> \<not> y \<le> x"
    by (auto simp: less_eq_double_def less_double_def)
  show "x \<le> x"
    by (simp add: less_eq_double_def)
  show "x \<le> y \<Longrightarrow> y \<le> z \<Longrightarrow> x \<le> z"
    by (simp add: less_eq_double_def)
  show "x \<le> y \<Longrightarrow> y \<le> x \<Longrightarrow> x = y"
    by (simp add: less_eq_double_def val_inject)
  show "x \<le> y \<or> y \<le> x"
    by (auto simp: less_eq_double_def)
qed

end

instantiation double :: equal
begin

definition equal_double :: "double \<Rightarrow> double \<Rightarrow> bool" where
  "equal_double x y \<longleftrightarrow> val x = val y"

instance
  by standard (simp add: equal_double_def val_inject)

end

section \<open>Data model (src/types.ts)\<close>

text \<open>
  Optional fields (\<open>supportType?\<close>, \<open>hasHinge?\<close>, \<open>yOffset?\<close>) are options.
  Record fields carry the name of their interface as a prefix, since \<open>id\<close>,
  \<open>start\<close> and \<open>end\<close> occur in several interfaces.
\<close>

datatype SupportType = FIXED | PIN | ROLLER | FREE | HINGE

datatype LoadType = DISTRIBUTED | POINT | MOMENT

datatype Direction = UP | DOWN | CLOCKWISE | COUNTER_CLOCKWISE

datatype number = NegInfinity | Finite double

record BeamNode =
  node_id :: string
  node_label :: string
  node_position :: double
  node_supportType :: "SupportType option"
  node_hasHinge :: "bool option"

record BeamLoad =
  load_id :: string
  load_type :: LoadType
  load_start :: double
  load_end :: double
  load_magnitude :: double
  load_unit :: string
  load_symbol :: string
  load_direction :: Direction

record Dimension =
  dim_id :: string
  dim_start :: double
  dim_end :: double
  dim_value :: double
  dim_unit :: string
  dim_symbol :: string
  dim_yOffset :: "double option"

record BeamStructure =
  totalLength :: number
  nodes :: "BeamNode list"
  loads :: "BeamLoad list"
  dimensions :: "Dimension list"

record AnalysisResult =
  result_structure :: BeamStructure
  result_latexCode :: string

section \<open>Library functions of the host language\<close>

text \<open>\<open>Array.prototype.findIndex\<close>: the first index whose element satisfies the
  predicate; \<open>None\<close> stands for the result \<open>-1\<close>.\<close>

fun findIndex :: "('a \<Rightarrow> bool) \<Rightarrow> 'a list \<Rightarrow> nat option" where
  "findIndex P [] = None"
| "findIndex P (x # xs) = (if P x then Some 0 else map_option Suc (findIndex P xs))"

text \<open>\<open>Math.max(...xs)\<close>: starts from \<open>-Infinity\<close>, which is the result for no
  arguments.\<close>

fun Math_max :: "double list \<Rightarrow> number" where
  "Math_max [] = NegInfinity"
| "Math_max (x # xs) =
     (case Math_max xs of NegInfinity \<Rightarrow> Finite x | Finite m \<Rightarrow> Finite (max x m))"

section \<open>The update logic (src/components/BeamVisualizer.tsx)\<close>

text \<open>The callbacks of the three \<open>forEach\<close> loops of \<open>updateDimension\<close>. Each
  mutates its element in place; here it returns the element as it is afterwards.
  \<open>pivotX - 0.001\<close> is a subtraction of numbers and \<open>+=\<close> an addition of numbers, so
  both round.\<close>

definition shiftDimension :: "nat \<Rightarrow> double \<Rightarrow> double \<Rightarrow> nat \<times> Dimension \<Rightarrow> Dimension" where
  "shiftDimension dimIndex pivotX diff = (\<lambda>(i, d).
     if i \<noteq> dimIndex \<and> dim_start d \<ge> fsub pivotX (toDouble 0.001)
     then d\<lparr>dim_start := fadd (dim_start d) diff, dim_end := fadd (dim_end d) diff\<rparr>
     else d)"

definition shiftNode :: "double \<Rightarrow> double \<Rightarrow> BeamNode \<Rightarrow> BeamNode" where
  "shiftNode pivotX diff n =
     (if node_position n \<ge> fsub pivotX (toDouble 0.001)
      then n\<lparr>node_position := fadd (node_position n) diff\<rparr>
      else n)"

definition shiftLoad :: "double \<Rightarrow> double \<Rightarrow> BeamLoad \<Rightarrow> BeamLoad" where
  "shiftLoad pivotX diff l =
     (if load_start l \<ge> fsub pivotX (toDouble 0.001)
      then l\<lparr>load_start := fadd (load_start l) diff, load_end := fadd (load_end l) diff\<rparr>
      else if load_end l \<ge> fsub pivotX (toDouble 0.001) \<and> load_start l < pivotX
      then l\<lparr>load_end := fadd (load_end l) diff\<rparr>
      else l)"

text \<open>
  \<open>updateDimension\<close> on the structure held in the component state: the structure the
  state holds after the call. Where the source returns without calling \<open>setResult\<close>
  (unknown id), that is the structure it held before.
\<close>

definition updateDimension :: "string \<Rightarrow> double \<Rightarrow> BeamStructure \<Rightarrow> BeamStructure" where
  "updateDimension dimId newValue s =
     (case findIndex (\<lambda>d. dim_id d = dimId) (dimensions s) of
        None \<Rightarrow> s
      | Some dimIndex \<Rightarrow>
          (let oldDim = dimensions s ! dimIndex;
               diff = fsub newValue (dim_value oldDim);
               dims1 = (dimensions s)
                 [dimIndex := oldDim\<lparr>dim_value := newValue,
                                     dim_end := fadd (dim_start oldDim) newValue\<rparr>];
               pivotX = dim_end oldDim;
               dims2 = map (shiftDimension dimIndex pivotX diff) (enumerate 0 dims1);
               nodes2 = map (shiftNode pivotX diff) (nodes s);
               loads2 = map (shiftLoad pivotX diff) (loads s)
           in s\<lparr>dimensions := dims2, nodes := nodes2, loads := loads2,
                totalLength := Math_max (map node_position nodes2)\<rparr>))"

text \<open>The handler as the component has it: \<open>result\<close> is the state, \<open>null\<close> before the
  first analysis; \<open>setResult({ ...result, structure: newStructure })\<close> keeps
  \<open>latexCode\<close>.\<close>

definition updateDimension_result ::
    "string \<Rightarrow> double \<Rightarrow> AnalysisResult option \<Rightarrow> AnalysisResult option" where
  "updateDimension_result dimId newValue result =
     (case result of
        None \<Rightarrow> None
      | Some r \<Rightarrow> Some (r\<lparr>result_structure := updateDimension dimId newValue (result_structure r)\<rparr>))"

text \<open>
  \<open>updateLoad(loadId, field, value)\<close>: \<open>field\<close> is a key of \<open>BeamLoad\<close> and
  \<open>value\<close> is untyped in the source. A call is modelled by the assignment it makes, with
  the value of the type that \<open>BeamLoad\<close> declares for the field (the one call site
  assigns a number to \<open>magnitude\<close>); values of another type are outside the model.
\<close>

datatype LoadAssignment =
    Set_id string
  | Set_type LoadType
  | Set_start double
  | Set_end double
  | Set_magnitude double
  | Set_unit string
  | Set_symbol string
  | Set_direction Direction

text \<open>The object spread \<open>{ ...l, [field]: value }\<close>.\<close>

fun assignField :: "LoadAssignment \<Rightarrow> BeamLoad \<Rightarrow> BeamLoad" where
  "assignField (Set_id v) l = l\<lparr>load_id := v\<rparr>"
| "assignField (Set_type v) l = l\<lparr>load_type := v\<rparr>"
| "assignField (Set_start v) l = l\<lparr>load_start := v\<rparr>"
| "assignField (Set_end v) l = l\<lparr>load_end := v\<rparr>"
| "assignField (Set_magnitude v) l = l\<lparr>load_magnitude := v\<rparr>"
| "assignField (Set_unit v) l = l\<lparr>load_unit := v\<rparr>"
| "assignField (Set_symbol v) l = l\<lparr>load_symbol := v\<rparr>"
| "assignField (Set_direction v) l = l\<lparr>load_direction := v\<rparr>"

definition updateLoad :: "string \<Rightarrow> LoadAssignment \<Rightarrow> BeamStructure \<Rightarrow> BeamStructure" where
  "updateLoad loadId a s =
     (case findIndex (\<lambda>l. load_id l = loadId) (loads s) of
        None \<Rightarrow> s
      | Some idx \<Rightarrow> s\<lparr>loads := (loads s)[idx := assignField a (loads s ! idx)]\<rparr>)"

definition updateLoad_result ::
    "string \<Rightarrow> LoadAssignment \<Rightarrow> AnalysisResult option \<Rightarrow> AnalysisResult option" where
  "updateLoad_result loadId a result =
     (case result of
        None \<Rightarrow> None
      | Some r \<Rightarrow> Some (r\<lparr>result_structure := updateLoad loadId a (result_structure r)\<rparr>))"

section \<open>Vocabulary of the specification\<close>

text \<open>The three-case rule for loads as section 4.1, step 6 of the specification words
  it: the second case tests the end of the load only. The comparisons and the shifts are
  those of the program's numbers.\<close>

definition spec_shiftLoad :: "double \<Rightarrow> double \<Rightarrow> BeamLoad \<Rightarrow> BeamLoad" where
  "spec_shiftLoad pivot diff l =
     (if load_start l \<ge> fsub pivot (toDouble 0.001)
      then l\<lparr>load_start := fadd (load_start l) diff, load_end := fadd (load_end l) diff\<rparr>
      else if load_end l \<ge> fsub pivot (toDouble 0.001)
      then l\<lparr>load_end := fadd (load_end l) diff\<rparr>
      else l)"

text \<open>The fields of a load by name, to say which fields an assignment leaves alone.\<close>

datatype LoadField =
  F_id | F_type | F_start | F_end | F_magnitude | F_unit | F_symbol | F_direction

datatype FieldValue =
  V_string string | V_number double | V_LoadType LoadType | V_Direction Direction

fun getField :: "LoadField \<Rightarrow> BeamLoad \<Rightarrow> FieldValue" where
  "getField F_id l = V_string (load_id l)"
| "getField F_type l = V_LoadType (load_type l)"
| "getField F_start l = V_number (load_start l)"
| "getField F_end l = V_number (load_end l)"
| "getField F_magnitude l = V_number (load_magnitude l)"
| "getField F_unit l = V_string (load_unit l)"
| "getField F_symbol l = V_string (load_symbol l)"
| "getField F_direction l = V_Direction (load_direction l)"

fun assignedField :: "LoadAssignment \<Rightarrow> LoadField" where
  "assignedField (Set_id v) = F_id"
| "assignedField (Set_type v) = F_type"
| "assignedField (Set_start v) = F_start"
| "assignedField (Set_end v) = F_end"
| "assignedField (Set_magnitude v) = F_magnitude"
| "assignedField (Set_unit v) = F_unit"
| "assignedField (Set_symbol v) = F_symbol"
| "assignedField (Set_direction v) = F_direction"

fun assignedValue :: "LoadAssignment \<Rightarrow> FieldValue" where
  "assignedValue (Set_id v) = V_string v"
| "assignedValue (Set_type v) = V_LoadType v"
| "assignedValue (Set_start v) = V_number v"
| "assignedValue (Set_end v) = V_number v"
| "assignedValue (Set_magnitude v) = V_number v"
| "assignedValue (Set_unit v) = V_string v"
| "assignedValue (Set_symbol v) = V_string v"
| "assignedValue (Set_direction v) = V_Direction v"

text \<open>The maximum node position of section 3; for no nodes it is \<open>-Infinity\<close>, the
  value of a maximum over nothing in the host language.\<close>

definition maxNodePosition :: "BeamNode list \<Rightarrow> number" where
  "maxNodePosition ns =
     (if ns = [] then NegInfinity else Finite (Max (node_position ` set ns)))"

section \<open>Example structures\<close>

text \<open>Two spans \<open>L1: [0,10]\<close> and \<open>L2: [10,16]\<close>, nodes at 0, 10 and 16, a point load
  before the end of \<open>L1\<close>, a distributed load across it and a point load on it.\<close>

definition dimL1 :: Dimension where
  "dimL1 = \<lparr>dim_id = ''d1'', dim_start = toDouble 0, dim_end = toDouble 10,
            dim_value = toDouble 10, dim_unit = ''ft'', dim_symbol = ''L1'',
            dim_yOffset = None\<rparr>"

definition dimL2 :: Dimension where
  "dimL2 = \<lparr>dim_id = ''d2'', dim_start = toDouble 10, dim_end = toDouble 16,
            dim_value = toDouble 6, dim_unit = ''ft'', dim_symbol = ''L2'',
            dim_yOffset = Some (toDouble 40)\<rparr>"

definition nodeA :: BeamNode where
  "nodeA = \<lparr>node_id = ''n1'', node_label = ''A'', node_position = toDouble 0,
            node_supportType = Some FIXED, node_hasHinge = None\<rparr>"

definition nodeB :: BeamNode where
  "nodeB = \<lparr>node_id = ''n2'', node_label = ''B'', node_position = toDouble 10,
            node_supportType = Some HINGE, node_hasHinge = Some True\<rparr>"

definition nodeC :: BeamNode where
  "nodeC = \<lparr>node_id = ''n3'', node_label = ''C'', node_position = toDouble 16,
            node_supportType = Some ROLLER, node_hasHinge = Some False\<rparr>"

definition loadP0 :: BeamLoad where
  "loadP0 = \<lparr>load_id = ''l1'', load_type = POINT, load_start = toDouble 3,
             load_end = toDouble 3, load_magnitude = toDouble 12, load_unit = ''k'',
             load_symbol = ''P0'', load_direction = DOWN\<rparr>"

definition loadW1 :: BeamLoad where
  "loadW1 = \<lparr>load_id = ''l2'', load_type = DISTRIBUTED, load_start = toDouble 4,
             load_end = toDouble 12, load_magnitude = toDouble 2, load_unit = ''k/ft'',
             load_symbol = ''w1'', load_direction = DOWN\<rparr>"

definition loadP1 :: BeamLoad where
  "loadP1 = \<lparr>load_id = ''l3'', load_type = POINT, load_start = toDouble 10,
             load_end = toDouble 10, load_magnitude = toDouble 5, load_unit = ''k'',
             load_symbol = ''P1'', load_direction = UP\<rparr>"

definition exampleBeam :: BeamStructure where
  "exampleBeam = \<lparr>totalLength = Finite (toDouble 16), nodes = [nodeA, nodeB, nodeC],
                  loads = [loadP0, loadW1, loadP1], dimensions = [dimL1, dimL2]\<rparr>"

text \<open>A structure with decimal fractions, where the rounding of the arithmetic shows:
  the span \<open>L1\<close> runs from 0.1 to 4.1, and a node, a dimension and two loads sit at
  4.098999999999999. As decimals that is below \<open>4.1 - 0.001\<close>; in the program it is
  the number that \<open>4.1 - 0.001\<close> evaluates to.\<close>

definition fractionBeam :: BeamStructure where
  "fractionBeam =
     \<lparr>totalLength = Finite (toDouble 4.098999999999999),
      nodes = [nodeA\<lparr>node_position := toDouble 1\<rparr>,
               nodeB\<lparr>node_position := toDouble 4.098999999999999\<rparr>],
      loads = [loadP0\<lparr>load_start := toDouble 4.098999999999999,
                      load_end := toDouble 4.098999999999999\<rparr>,
               loadW1\<lparr>load_start := toDouble 1, load_end := toDouble 4.098999999999999\<rparr>,
               loadP1\<lparr>load_start := toDouble 1, load_end := toDouble 1\<rparr>],
      dimensions = [dimL1\<lparr>dim_start := toDouble 0.1, dim_end := toDouble 4.1,
                            dim_value := toDouble 4\<rparr>,
                    dimL2\<lparr>dim_start := toDouble 4.098999999999999, dim_end := toDouble 6,
                            dim_value := toDouble 1.9\<rparr>]\<rparr>"

text \<open>The span \<open>L1\<close> alone, with no nodes.\<close>

definition noNodesBeam :: BeamStructure where
  "noNodesBeam = \<lparr>totalLength = Finite (toDouble 10), nodes = [], loads = [],
                  dimensions = [dimL1]\<rparr>"

text \<open>A structure whose span \<open>L1\<close> runs from 0 to 10 but is labelled with the length 8,
  a structure whose \<open>totalLength\<close> is not the largest node position, and a structure
  whose span runs from 0.1 to 0.3 with the length 0.2, where the sum of start and length
  as the program computes it is not the end.\<close>

definition mislabelledBeam :: BeamStructure where
  "mislabelledBeam = \<lparr>totalLength = Finite (toDouble 10), nodes = [nodeA, nodeB], loads = [],
                      dimensions = [dimL1\<lparr>dim_value := toDouble 8\<rparr>]\<rparr>"

definition staleLengthBeam :: BeamStructure where
  "staleLengthBeam = \<lparr>totalLength = Finite (toDouble 12), nodes = [nodeA, nodeB], loads = [],
                      dimensions = [dimL1]\<rparr>"

definition decimalSpanBeam :: BeamStructure where
  "decimalSpanBeam =
     \<lparr>totalLength = Finite (toDouble 0.3),
      nodes = [nodeA\<lparr>node_position := toDouble 0.1\<rparr>,
               nodeB\<lparr>node_position := toDouble 0.3\<rparr>],
      loads = [],
      dimensions = [dimL1\<lparr>dim_start := toDouble 0.1, dim_end := toDouble 0.3,
                            dim_value := toDouble 0.2\<rparr>]\<rparr>"

text \<open>A structure with a node, a dimension and two loads that end within 0.001 before
  the end of \<open>L1\<close>, and a load whose start lies after its end.\<close>

definition nearPivotBeam :: BeamStructure where
  "nearPivotBeam =
     \<lparr>totalLength = Finite (toDouble 16),
      nodes = [nodeA, nodeB\<lparr>node_position := toDouble 9.9995\<rparr>, nodeC],
      loads = [loadP0\<lparr>load_start := toDouble 9.9995, load_end := toDouble 9.9995\<rparr>,
               loadW1\<lparr>load_start := toDouble 4, load_end := toDouble 9.9995\<rparr>,
               loadP1\<lparr>load_start := toDouble 12, load_end := toDouble 5\<rparr>],
      dimensions = [dimL1, dimL2\<lparr>dim_start := toDouble 9.9995\<rparr>]\<rparr>"

section \<open>Facts about rounding\<close>

lemma bitlen_powi_bounds:
  assumes "0 < p"
  shows "(2::rat) powi (bitlen p - 1) \<le> of_int p" and "of_int p < (2::rat) powi bitlen p"
proof -
  from assms have b: "1 \<le> bitlen p"
    using bitlen_eq_zero_iff [of p] bitlen_nonneg [of p] by linarith
  from bitlen_bounds [OF assms] have "2 ^ nat (bitlen p - 1) \<le> p" and "p < 2 ^ nat (bitlen p)"
    by simp_all
  then have "(of_int (2 ^ nat (bitlen p - 1)) :: rat) \<le> of_int p"
    and "(of_int p :: rat) < of_int (2 ^ nat (bitlen p))"
    by (simp_all only: of_int_le_iff of_int_less_iff)
  with b show "(2::rat) powi (bitlen p - 1) \<le> of_int p" and "of_int p < (2::rat) powi bitlen p"
    by (simp_all add: power_int_def)
qed

lemma ilog2_bounds:
  assumes "0 < x"
  shows "2 powi ilog2 x \<le> x" and "x < 2 powi (ilog2 x + 1)"
proof -
  obtain p q where pq: "quotient_of x = (p, q)" by (cases "quotient_of x")
  then have q: "0 < q" and x: "x = of_int p / of_int q"
    using quotient_of_denom_pos quotient_of_div by auto
  with assms have p: "0 < p" by (simp add: zero_less_divide_iff)
  let ?k = "bitlen p - bitlen q"
  note P = bitlen_powi_bounds [OF p] and Q = bitlen_powi_bounds [OF q]
  have qpos: "(0::rat) < of_int q" using q by simp
  have "2 powi (?k - 1) * of_int q < (2::rat) powi (?k - 1) * 2 powi bitlen q"
    using Q(2) by simp
  also have "\<dots> = 2 powi (bitlen p - 1)"
    by (simp add: power_int_add [symmetric])
  also have "\<dots> \<le> of_int p" by (rule P(1))
  finally have lo: "2 powi (?k - 1) < x"
    using qpos by (simp add: x pos_less_divide_eq)
  have "of_int p < (2::rat) powi bitlen p" by (rule P(2))
  also have "\<dots> = 2 powi (?k + 1) * 2 powi (bitlen q - 1)"
    by (simp add: power_int_add [symmetric])
  also have "\<dots> \<le> 2 powi (?k + 1) * of_int q"
    using Q(1) by simp
  finally have hi: "x < 2 powi (?k + 1)"
    using qpos by (simp add: x pos_divide_less_eq)
  from lo hi show "2 powi ilog2 x \<le> x" and "x < 2 powi (ilog2 x + 1)"
    by (auto simp: ilog2_def pq Let_def)
qed

lemma roundHalfEven_ge_floor: "\<lfloor>t\<rfloor> \<le> roundHalfEven t"
  by (simp add: roundHalfEven_def Let_def)

lemma roundHalfEven_le_ceiling: "roundHalfEven t \<le> \<lceil>t\<rceil>"
proof -
  have "\<lfloor>t\<rfloor> + 1 \<le> \<lceil>t\<rceil>" if "0 < t - of_int \<lfloor>t\<rfloor>"
  proof -
    from that have "of_int \<lfloor>t\<rfloor> < t" by simp
    then have "\<lfloor>t\<rfloor> < \<lceil>t\<rceil>" by (simp add: less_ceiling_iff)
    then show ?thesis by simp
  qed
  moreover have "\<lfloor>t\<rfloor> \<le> \<lceil>t\<rceil>" by (rule floor_le_ceiling)
  ultimately show ?thesis
    by (auto simp: roundHalfEven_def Let_def not_less)
qed

lemma roundHalfEven_of_int [simp]: "roundHalfEven (of_int n) = n"
  by (simp add: roundHalfEven_def Let_def)

lemma roundHalfEven_minus: "roundHalfEven (- t) = - roundHalfEven t"
proof (cases "t = of_int \<lfloor>t\<rfloor>")
  case True
  then obtain n where "t = of_int n" ..
  then have "roundHalfEven (- t) = roundHalfEven (of_int (- n))" by simp
  also have "\<dots> = - n" by (rule roundHalfEven_of_int)
  finally show ?thesis using \<open>t = of_int n\<close> by simp
next
  case False
  then have c: "\<lceil>t\<rceil> = \<lfloor>t\<rfloor> + 1"
    by (metis ceiling_altdef)
  have f: "\<lfloor>- t\<rfloor> = - \<lfloor>t\<rfloor> - 1"
    using c by (simp add: floor_minus)
  from False have "of_int \<lfloor>t\<rfloor> < t"
    by (metis of_int_floor_le order_less_le)
  with f show ?thesis
    by (auto simp: roundHalfEven_def Let_def)
qed

lemma ulpExponent_ge: "- 1074 \<le> ulpExponent x"
  by (simp add: ulpExponent_def)

lemma ulpExponent_minus [simp]: "ulpExponent (- x) = ulpExponent x"
  by (simp add: ulpExponent_def)

lemma scaled_less:
  assumes "x \<noteq> 0"
  shows "\<bar>x\<bar> < 2 powi 53 * 2 powi ulpExponent x"
proof -
  from assms have "0 < \<bar>x\<bar>" by simp
  then have "\<bar>x\<bar> < 2 powi (ilog2 \<bar>x\<bar> + 1)" by (rule ilog2_bounds)
  also have "\<dots> \<le> 2 powi (53 + ulpExponent x)"
    by (rule power_int_increasing) (simp_all add: ulpExponent_def)
  also have "\<dots> = 2 powi 53 * 2 powi ulpExponent x"
    by (simp add: power_int_add)
  finally show ?thesis .
qed

lemma scaled_ge:
  assumes "x \<noteq> 0" and "ulpExponent x \<noteq> - 1074"
  shows "2 powi 52 * 2 powi ulpExponent x \<le> \<bar>x\<bar>"
proof -
  from assms(2) have e: "ulpExponent x = ilog2 \<bar>x\<bar> - 52"
    by (simp add: ulpExponent_def max_def split: if_splits)
  from assms(1) have "0 < \<bar>x\<bar>" by simp
  then have "2 powi ilog2 \<bar>x\<bar> \<le> \<bar>x\<bar>" by (rule ilog2_bounds)
  moreover have "(2::rat) powi 52 * 2 powi ulpExponent x = 2 powi ilog2 \<bar>x\<bar>"
  proof -
    have "(2::rat) powi 52 * 2 powi (ilog2 \<bar>x\<bar> - 52) = 2 powi (52 + (ilog2 \<bar>x\<bar> - 52))"
      by (rule power_int_add [symmetric]) simp
    also have "52 + (ilog2 \<bar>x\<bar> - 52) = ilog2 \<bar>x\<bar>" by simp
    finally show ?thesis unfolding e .
  qed
  ultimately show ?thesis by simp
qed

text \<open>A double of magnitude at least \<open>2^52 * 2^e\<close> is a multiple of \<open>2^e\<close>.\<close>

lemma is_double_on_grid:
  assumes y: "is_double y" and e: "- 1074 \<le> e"
    and big: "e \<noteq> - 1074 \<Longrightarrow> 2 powi 52 * 2 powi e \<le> \<bar>y\<bar>"
  shows "\<exists>k::int. y = of_int k * 2 powi e"
proof -
  from y obtain m e0 where m: "\<bar>m\<bar> < 2 ^ 53" and e0: "- 1074 \<le> e0"
    and yv: "y = of_int m * 2 powi e0"
    unfolding is_double_def by blast
  show ?thesis
  proof (cases "e \<le> e0")
    case True
    have "(2::rat) powi e0 = 2 powi ((e0 - e) + e)" by simp
    also have "\<dots> = 2 powi (e0 - e) * 2 powi e"
      by (rule power_int_add) simp
    also from True have "(2::rat) powi (e0 - e) = 2 ^ nat (e0 - e)"
      by (simp add: power_int_def)
    finally have "(2::rat) powi e0 = of_int (2 ^ nat (e0 - e)) * 2 powi e"
      by simp
    then have "y = of_int (m * 2 ^ nat (e0 - e)) * 2 powi e"
      unfolding yv by (simp del: of_int_power)
    then show ?thesis ..
  next
    case False
    with e0 have ne: "e \<noteq> - 1074" by simp
    from m have "(of_int \<bar>m\<bar> :: rat) < of_int (2 ^ 53)"
      by (simp only: of_int_less_iff)
    then have "\<bar>of_int m :: rat\<bar> < 2 powi 53"
      by simp
    then have "\<bar>y\<bar> < 2 powi 53 * 2 powi e0"
      unfolding yv by (simp add: abs_mult)
    also have "\<dots> = 2 powi (53 + e0)" by (simp add: power_int_add)
    also from False have "\<dots> \<le> 2 powi (52 + e)"
      by (intro power_int_increasing) simp_all
    also have "\<dots> = 2 powi 52 * 2 powi e" by (simp add: power_int_add)
    finally show ?thesis using big [OF ne] by simp
  qed
qed

lemma is_double_zero [simp]: "is_double 0"
  unfolding is_double_def by (intro exI [of _ 0]) simp

lemma is_double_minus: "is_double (- y) \<longleftrightarrow> is_double y"
proof -
  have "is_double (- z)" if "is_double z" for z
  proof -
    from that obtain m e where "\<bar>m\<bar> < 2 ^ 53" "- 1074 \<le> e" "z = of_int m * 2 powi e"
      unfolding is_double_def by blast
    then have "\<bar>- m\<bar> < 2 ^ 53 \<and> - 1074 \<le> e \<and> - z = of_int (- m) * 2 powi e"
      by simp
    then show ?thesis unfolding is_double_def by blast
  qed
  from this [of y] this [of "- y"] show ?thesis by auto
qed

lemma roundToDouble_minus: "roundToDouble (- x) = - roundToDouble x"
  by (simp add: roundToDouble_def roundHalfEven_minus)

text \<open>Rounding leaves a double as it is, never crosses a double, and yields a
  double.\<close>

lemma roundToDouble_exact:
  assumes "is_double x"
  shows "roundToDouble x = x"
proof (cases "x = 0")
  case True
  then show ?thesis by (simp add: roundToDouble_def)
next
  case False
  define e where "e = ulpExponent x"
  have "\<exists>k::int. x = of_int k * 2 powi e"
    unfolding e_def by (rule is_double_on_grid [OF assms ulpExponent_ge]) (rule scaled_ge [OF False])
  then obtain k :: int where k: "x = of_int k * 2 powi e" ..
  then have "x / 2 powi e = of_int k" by simp
  then have rhe: "roundHalfEven (x / 2 powi e) = k" by simp
  from False have "roundToDouble x = of_int (roundHalfEven (x / 2 powi e)) * 2 powi e"
    by (simp add: roundToDouble_def e_def)
  also have "\<dots> = of_int k * 2 powi e" by (simp only: rhe)
  also have "\<dots> = x" by (rule k [symmetric])
  finally show ?thesis .
qed

lemma roundToDouble_le:
  assumes y: "is_double y" and xy: "x \<le> y"
  shows "roundToDouble x \<le> y"
proof (cases "x = 0")
  case True
  with xy show ?thesis by (simp add: roundToDouble_def)
next
  case False
  define e where "e = ulpExponent x"
  define g :: rat where "g = 2 powi e"
  define t where "t = x / g"
  have g: "0 < g" by (simp add: g_def)
  have r: "roundToDouble x = of_int (roundHalfEven t) * g"
    using False by (simp add: roundToDouble_def t_def g_def e_def)
  show ?thesis
  proof (rule ccontr)
    assume "\<not> roundToDouble x \<le> y"
    then have "y < of_int (roundHalfEven t) * g" by (simp add: r)
    also have "\<dots> \<le> of_int \<lceil>t\<rceil> * g"
      using g roundHalfEven_le_ceiling [of t] by simp
    finally have less: "y < of_int \<lceil>t\<rceil> * g" .
    have "\<exists>k::int. y = of_int k * 2 powi e"
    proof (rule is_double_on_grid [OF y])
      show "- 1074 \<le> e" by (simp add: e_def ulpExponent_ge)
    next
      assume "e \<noteq> - 1074"
      then have big: "2 powi 52 * g \<le> \<bar>x\<bar>"
        unfolding g_def e_def by (intro scaled_ge [OF False])
      show "2 powi 52 * 2 powi e \<le> \<bar>y\<bar>"
      proof (cases "0 < x")
        case True
        with big xy show ?thesis by (simp add: g_def)
      next
        case neg: False
        define B :: rat where "B = 2 powi 52"
        have B: "B = of_int (2 ^ 52)" by (simp add: B_def)
        with False neg have "x < 0" by simp
        with big have "B * g \<le> - x" by (simp add: B_def)
        with g have "t \<le> - B"
          by (simp add: t_def pos_divide_le_eq mult.commute)
        then have "t \<le> of_int (- (2 ^ 52))" by (simp only: B of_int_minus)
        then have "\<lceil>t\<rceil> \<le> - (2 ^ 52)" by (simp only: ceiling_le_iff)
        then have "(of_int \<lceil>t\<rceil> :: rat) \<le> of_int (- (2 ^ 52))"
          by (simp only: of_int_le_iff)
        then have "(of_int \<lceil>t\<rceil> :: rat) \<le> - B" by (simp only: B of_int_minus)
        then have "of_int \<lceil>t\<rceil> * g \<le> - B * g"
          using g by (intro mult_right_mono) simp_all
        with less have "y < - (B * g)" by simp
        moreover have "0 \<le> B * g" using g by (simp add: B_def)
        ultimately have "B * g \<le> \<bar>y\<bar>" by simp
        then show ?thesis by (simp add: B_def g_def)
      qed
    qed
    then obtain k :: int where k: "y = of_int k * g" unfolding g_def ..
    from xy k g have "t \<le> of_int k" by (simp add: t_def pos_divide_le_eq)
    then have "\<lceil>t\<rceil> \<le> k" by (simp only: ceiling_le_iff)
    then have "(of_int \<lceil>t\<rceil> :: rat) * g \<le> of_int k * g"
      using g by simp
    with less k show False by simp
  qed
qed

lemma roundToDouble_ge:
  assumes y: "is_double y" and xy: "y \<le> x"
  shows "y \<le> roundToDouble x"
proof -
  from y have "is_double (- y)" by (simp add: is_double_minus)
  moreover from xy have "- x \<le> - y" by simp
  ultimately have "roundToDouble (- x) \<le> - y" by (rule roundToDouble_le)
  then show ?thesis by (simp add: roundToDouble_minus)
qed

lemma is_double_roundToDouble: "is_double (roundToDouble x)"
proof (cases "x = 0")
  case True
  then show ?thesis by (simp add: roundToDouble_def)
next
  case False
  define e where "e = ulpExponent x"
  define g :: rat where "g = 2 powi e"
  define t where "t = x / g"
  define R where "R = roundHalfEven t"
  have g: "0 < g" by (simp add: g_def)
  have e: "- 1074 \<le> e" by (simp add: e_def ulpExponent_ge)
  have r: "roundToDouble x = of_int R * g"
    using False by (simp add: roundToDouble_def R_def t_def g_def e_def)
  from scaled_less [OF False] have "\<bar>x\<bar> < 2 powi 53 * g"
    by (simp add: g_def e_def)
  with g have "\<bar>t\<bar> < 2 powi 53"
    by (simp add: t_def abs_divide pos_divide_less_eq)
  then have "- (2 powi 53) \<le> t" and "t \<le> 2 powi 53"
    by (simp_all add: abs_less_iff)
  moreover have "(2::rat) powi 53 = of_int (2 ^ 53)" by simp
  ultimately have t: "of_int (- (2 ^ 53)) \<le> t" "t \<le> of_int (2 ^ 53)"
    by (simp_all only: of_int_minus)
  from t(1) have "- (2 ^ 53) \<le> \<lfloor>t\<rfloor>" by (simp only: le_floor_iff)
  with roundHalfEven_ge_floor [of t] have lo: "- (2 ^ 53) \<le> R"
    unfolding R_def by (rule order_trans [rotated])
  from t(2) have "\<lceil>t\<rceil> \<le> 2 ^ 53" by (simp only: ceiling_le_iff)
  with roundHalfEven_le_ceiling [of t] have hi: "R \<le> 2 ^ 53"
    unfolding R_def by (rule order_trans)
  consider "\<bar>R\<bar> < 2 ^ 53" | "R = 2 ^ 53" | "R = - (2 ^ 53)"
    using lo hi by linarith
  then show ?thesis
  proof cases
    case 1
    with e r show ?thesis unfolding is_double_def g_def by blast
  next
    case 2
    have "(2::rat) powi (e + 1) = 2 powi e * 2 powi 1"
      by (rule power_int_add) simp
    with 2 have "roundToDouble x = of_int (2 ^ 52) * 2 powi (e + 1)"
      by (simp add: r g_def)
    moreover have "\<bar>2 ^ 52 :: int\<bar> < 2 ^ 53" by simp
    moreover from e have "- 1074 \<le> e + 1" by simp
    ultimately show ?thesis unfolding is_double_def by blast
  next
    case 3
    have "(2::rat) powi (e + 1) = 2 powi e * 2 powi 1"
      by (rule power_int_add) simp
    with 3 have "roundToDouble x = of_int (- (2 ^ 52)) * 2 powi (e + 1)"
      by (simp add: r g_def)
    moreover have "\<bar>- (2 ^ 52) :: int\<bar> < 2 ^ 53" by simp
    moreover from e have "- 1074 \<le> e + 1" by simp
    ultimately show ?thesis unfolding is_double_def by blast
  qed
qed

lemma is_double_iff: "is_double x \<longleftrightarrow> roundToDouble x = x"
  using is_double_roundToDouble [of x] roundToDouble_exact [of x] by auto

lemma is_double_code [code]: "is_double x \<longleftrightarrow> roundToDouble x = x"
  by (rule is_double_iff)

lemma roundToDouble_zero [simp]: "roundToDouble 0 = 0"
  by (simp add: roundToDouble_def)

text \<open>The type \<open>double\<close> for evaluation: a value is given by its rational.\<close>

lemma Abs_double_val [code abstype]: "Abs_double (val x) = x"
  by (rule val_inverse)

lemma is_double_val: "is_double (val x)"
  using val [of x] by simp

lemma val_toDouble [code abstract]: "val (toDouble x) = roundToDouble x"
  by (simp add: toDouble_def Abs_double_inverse is_double_roundToDouble)

lemma toDouble_val: "toDouble (val x) = x"
  by (simp add: toDouble_def roundToDouble_exact is_double_val val_inverse)

lemma val_fadd: "val (fadd x y) = roundToDouble (val x + val y)"
  by (simp add: fadd_def val_toDouble)

lemma val_fsub: "val (fsub x y) = roundToDouble (val x - val y)"
  by (simp add: fsub_def val_toDouble)

lemma fsub_self: "fsub x x = toDouble 0"
  by (simp add: fsub_def)

lemma fadd_zero: "fadd x (toDouble 0) = x"
  by (simp add: fadd_def val_toDouble toDouble_val)

text \<open>The number that \<open>0.001\<close> denotes is positive, so the threshold
  \<open>pivotX - 0.001\<close> is never above \<open>pivotX\<close>, although it may equal it.\<close>

lemma epsilon_positive: "0 < roundToDouble (1 / 10 ^ 3)"
  by code_simp

lemma threshold_le_pivot: "fsub p (toDouble 0.001) \<le> p"
proof -
  have "val p - roundToDouble (1 / 10 ^ 3) \<le> val p"
    using epsilon_positive by simp
  with is_double_val have "roundToDouble (val p - roundToDouble (1 / 10 ^ 3)) \<le> val p"
    by (rule roundToDouble_le)
  then show ?thesis
    by (simp add: less_eq_double_def val_fsub val_toDouble)
qed

lemma below_threshold_less_pivot:
  assumes "\<not> fsub p (toDouble 0.001) \<le> x"
  shows "x < p"
proof -
  from assms have "x < fsub p (toDouble 0.001)" by simp
  also have "\<dots> \<le> p" by (rule threshold_le_pivot)
  finally show ?thesis .
qed

section \<open>Facts about the library functions\<close>

lemma findIndex_Some_less: "findIndex P xs = Some k \<Longrightarrow> k < length xs"
  by (induction xs arbitrary: k) (auto split: if_splits)

lemma findIndex_Some_holds: "findIndex P xs = Some k \<Longrightarrow> P (xs ! k)"
  by (induction xs arbitrary: k) (auto split: if_splits)

lemma findIndex_Some_first: "findIndex P xs = Some k \<Longrightarrow> j < k \<Longrightarrow> \<not> P (xs ! j)"
proof (induction xs arbitrary: k j)
  case Nil
  then show ?case by simp
next
  case (Cons x xs)
  show ?case
  proof (cases "P x")
    case True
    with Cons.prems show ?thesis by simp
  next
    case False
    with Cons.prems obtain k' where k': "findIndex P xs = Some k'" "k = Suc k'"
      by auto
    show ?thesis
    proof (cases j)
      case 0
      with False show ?thesis by simp
    next
      case (Suc j')
      with Cons.prems(2) k' have "j' < k'" by simp
      with Cons.IH k'(1) have "\<not> P (xs ! j')" by blast
      with Suc show ?thesis by simp
    qed
  qed
qed

lemma findIndex_None_iff: "findIndex P xs = None \<longleftrightarrow> (\<forall>x \<in> set xs. \<not> P x)"
  by (induction xs) auto

lemma Math_max_nonempty: "xs \<noteq> [] \<Longrightarrow> Math_max xs = Finite (Max (set xs))"
proof (induction xs)
  case Nil
  then show ?case by simp
next
  case (Cons x xs)
  show ?case
  proof (cases "xs = []")
    case True
    then show ?thesis by simp
  next
    case False
    with Cons.IH have "Math_max xs = Finite (Max (set xs))" by simp
    moreover from False have "Max (set (x # xs)) = max x (Max (set xs))"
      by simp
    ultimately show ?thesis by simp
  qed
qed

lemma Math_max_maxNodePosition: "Math_max (map node_position ns) = maxNodePosition ns"
proof (cases "ns = []")
  case True
  then show ?thesis by (simp add: maxNodePosition_def)
next
  case False
  then have "map node_position ns \<noteq> []" by simp
  then have "Math_max (map node_position ns) = Finite (Max (set (map node_position ns)))"
    by (rule Math_max_nonempty)
  with False show ?thesis by (simp add: maxNodePosition_def)
qed

section \<open>Facts about \<open>updateDimension\<close>\<close>

lemma updateDimension_found:
  assumes "findIndex (\<lambda>d. dim_id d = dimId) (dimensions s) = Some k"
  shows "updateDimension dimId newValue s =
     s\<lparr>dimensions :=
          map (shiftDimension k (dim_end (dimensions s ! k))
                 (fsub newValue (dim_value (dimensions s ! k))))
            (enumerate 0 ((dimensions s)[k := (dimensions s ! k)
               \<lparr>dim_value := newValue,
                dim_end := fadd (dim_start (dimensions s ! k)) newValue\<rparr>])),
        nodes := map (shiftNode (dim_end (dimensions s ! k))
                        (fsub newValue (dim_value (dimensions s ! k)))) (nodes s),
        loads := map (shiftLoad (dim_end (dimensions s ! k))
                        (fsub newValue (dim_value (dimensions s ! k)))) (loads s),
        totalLength := Math_max (map node_position
          (map (shiftNode (dim_end (dimensions s ! k))
                  (fsub newValue (dim_value (dimensions s ! k)))) (nodes s)))\<rparr>"
  using assms by (simp add: updateDimension_def Let_def)

lemma updateDimension_not_found:
  assumes "findIndex (\<lambda>d. dim_id d = dimId) (dimensions s) = None"
  shows "updateDimension dimId newValue s = s"
  using assms by (simp add: updateDimension_def)

lemma updateDimension_loads:
  assumes "findIndex (\<lambda>d. dim_id d = dimId) (dimensions s) = Some k"
  shows "loads (updateDimension dimId newValue s) =
     map (shiftLoad (dim_end (dimensions s ! k)) (fsub newValue (dim_value (dimensions s ! k))))
       (loads s)"
  by (simp add: updateDimension_found [OF assms])

lemma updateDimension_nodes:
  assumes "findIndex (\<lambda>d. dim_id d = dimId) (dimensions s) = Some k"
  shows "nodes (updateDimension dimId newValue s) =
     map (shiftNode (dim_end (dimensions s ! k)) (fsub newValue (dim_value (dimensions s ! k))))
       (nodes s)"
  by (simp add: updateDimension_found [OF assms])

lemma updateDimension_totalLength:
  assumes "findIndex (\<lambda>d. dim_id d = dimId) (dimensions s) = Some k"
  shows "totalLength (updateDimension dimId newValue s) =
     Math_max (map node_position (nodes (updateDimension dimId newValue s)))"
  by (simp add: updateDimension_found [OF assms])

lemma updateDimension_dimensions_length:
  "length (dimensions (updateDimension dimId newValue s)) = length (dimensions s)"
  by (simp add: updateDimension_def Let_def split: option.splits)

lemma updateDimension_dimensions_edited:
  assumes "findIndex (\<lambda>d. dim_id d = dimId) (dimensions s) = Some k"
  shows "dimensions (updateDimension dimId newValue s) ! k =
     (dimensions s ! k)
       \<lparr>dim_value := newValue, dim_end := fadd (dim_start (dimensions s ! k)) newValue\<rparr>"
proof -
  from assms have "k < length (dimensions s)" by (rule findIndex_Some_less)
  then show ?thesis
    by (simp add: updateDimension_found [OF assms] nth_enumerate_eq shiftDimension_def)
qed

lemma updateDimension_dimensions_other:
  assumes "findIndex (\<lambda>d. dim_id d = dimId) (dimensions s) = Some k"
    and "i < length (dimensions s)" and "i \<noteq> k"
  shows "dimensions (updateDimension dimId newValue s) ! i =
     shiftDimension k (dim_end (dimensions s ! k)) (fsub newValue (dim_value (dimensions s ! k)))
       (i, dimensions s ! i)"
  using assms(2,3)
  by (simp add: updateDimension_found [OF assms(1)] nth_enumerate_eq)

text \<open>The handler applies the structure update to the state it holds, keeps
  \<open>latexCode\<close>, and does nothing before the first analysis.\<close>

lemma updateDimension_result_Some:
  "updateDimension_result dimId newValue (Some r) =
     Some \<lparr>result_structure = updateDimension dimId newValue (result_structure r),
           result_latexCode = result_latexCode r\<rparr>"
  by (simp add: updateDimension_result_def)

lemma updateDimension_result_None: "updateDimension_result dimId newValue None = None"
  by (simp add: updateDimension_result_def)

text \<open>The second test of the load rule, \<open>l.start < pivotX\<close>, follows from the failure
  of the first, \<open>l.start >= pivotX - 0.001\<close>: the rounded threshold is at most
  \<open>pivotX\<close>.\<close>

lemma shiftLoad_spec: "shiftLoad pivotX diff l = spec_shiftLoad pivotX diff l"
  by (simp add: shiftLoad_def spec_shiftLoad_def below_threshold_less_pivot)

section \<open>The arithmetic at the numbers of the examples\<close>

text \<open>Evaluated with the rounding of the model: \<open>4.1 - 0.001\<close> is
  4.098999999999999 and \<open>6 - 0.001\<close> is 5.999, \<open>0.2 + (0.9 - 0.2)\<close> is
  0.8999999999999999, adding 1 to \<open>1e16\<close> changes nothing,
  \<open>0.1 + 0.7\<close> is 0.7999999999999999 and not 0.8, and \<open>0.1 + 0.2\<close> is not 0.3.\<close>

lemma threshold_4_1_value:
  "fsub (toDouble 4.1) (toDouble 0.001) = toDouble 4.098999999999999"
  by code_simp

lemma threshold_6_value: "fsub (toDouble 6) (toDouble 0.001) = toDouble 5.999"
  by code_simp

lemma shift_0_2_by_0_7:
  "fadd (toDouble 0.2) (fsub (toDouble 0.9) (toDouble 0.2)) = toDouble 0.8999999999999999"
  by code_simp

lemma sum_absorbed:
  "fadd (toDouble 10000000000000000) (toDouble 1) = toDouble 10000000000000000"
  by code_simp

lemma threshold_4_1_reached:
  "fsub (toDouble 4.1) (toDouble 0.001) \<le> toDouble 4.098999999999999"
  by code_simp

lemma threshold_4_1_above_1: "\<not> fsub (toDouble 4.1) (toDouble 0.001) \<le> toDouble 1"
  by code_simp

lemma sum_0_1_0_7: "fadd (toDouble 0.1) (toDouble 0.7) = toDouble 0.7999999999999999"
  by code_simp

lemma sum_0_1_0_7_not_0_8: "toDouble 0.7999999999999999 \<noteq> toDouble 0.8"
  by code_simp

lemma sum_0_1_0_2_not_0_3: "fadd (toDouble 0.1) (toDouble 0.2) \<noteq> toDouble 0.3"
  by code_simp

lemma sum_0_8_not_10: "fadd (toDouble 0) (toDouble 8) \<noteq> toDouble 10"
  by code_simp

lemma sum_0_10: "fadd (toDouble 0) (toDouble 10) = toDouble 10"
  by code_simp

lemma threshold_16_above_0: "toDouble 0 < fsub (toDouble 16) (toDouble 0.001)"
  by code_simp

lemma threshold_16_above_3: "toDouble 3 < fsub (toDouble 16) (toDouble 0.001)"
  by code_simp

lemma threshold_10_reached: "fsub (toDouble 10) (toDouble 0.001) \<le> toDouble 9.9995"
  by code_simp

lemma threshold_10_above_4: "\<not> fsub (toDouble 10) (toDouble 0.001) \<le> toDouble 4"
  by code_simp

lemma threshold_10_below_12: "fsub (toDouble 10) (toDouble 0.001) \<le> toDouble 12"
  by code_simp

lemma near_pivot_before_10: "toDouble 9.9995 < toDouble 10"
  by code_simp

lemma five_before_10: "toDouble 5 < toDouble 10"
  by code_simp

lemma near_pivot_shifted:
  "fadd (toDouble 9.9995) (fsub (toDouble 15) (toDouble 10)) \<noteq> toDouble 9.9995"
  by code_simp

lemma five_shifted: "fadd (toDouble 5) (fsub (toDouble 15) (toDouble 10)) \<noteq> toDouble 5"
  by code_simp

lemma exampleBeam_shifted_max:
  "maxNodePosition (map (shiftNode (toDouble 10) (fsub (toDouble 15) (toDouble 10)))
      [nodeA, nodeB, nodeC]) = Finite (toDouble 21)"
  by code_simp

lemma exampleBeam_max: "maxNodePosition [nodeA, nodeB, nodeC] = Finite (toDouble 16)"
  by code_simp

lemma staleLengthBeam_max: "maxNodePosition [nodeA, nodeB] \<noteq> Finite (toDouble 12)"
  by code_simp

lemmas example_defs =
  exampleBeam_def fractionBeam_def noNodesBeam_def mislabelledBeam_def staleLengthBeam_def
  decimalSpanBeam_def nearPivotBeam_def
  dimL1_def dimL2_def nodeA_def nodeB_def nodeC_def loadP0_def loadW1_def loadP1_def

section \<open>Properties of the dimension-change propagator\<close>

text \<open>
  C1. When the edited dimension exists, every load is transformed by the three-case rule
  of the specification, decided against the original end of the edited dimension (the
  pivot): a load that starts at or after \<open>pivot - 0.001\<close> has start and end shifted by
  \<open>diff = newValue - oldValue\<close>; otherwise a load that ends at or after
  \<open>pivot - 0.001\<close> keeps its start and has its end shifted by \<open>diff\<close>; otherwise the load
  is unchanged. The threshold, \<open>diff\<close> and the shifts are the numbers that the program
  computes, each rounded as the machine rounds it.
\<close>

theorem updateDimension_loads_three_cases:
  assumes "findIndex (\<lambda>d. dim_id d = dimId) (dimensions s) = Some k"
  shows "loads (updateDimension dimId newValue s) =
     map (spec_shiftLoad (dim_end (dimensions s ! k))
            (fsub newValue (dim_value (dimensions s ! k))))
       (loads s)"
proof -
  have "shiftLoad p d = spec_shiftLoad p d" for p d
    by (rule ext) (rule shiftLoad_spec)
  with updateDimension_loads [OF assms] show ?thesis by simp
qed

theorem updateDimension_loads_three_cases_witness:
  "findIndex (\<lambda>d. dim_id d = ''d1'') (dimensions fractionBeam) = Some 0
   \<and> loads (updateDimension ''d1'' (toDouble 0.7) fractionBeam) =
       [loadP0\<lparr>load_start := fadd (toDouble 4.098999999999999) (fsub (toDouble 0.7) (toDouble 4)),
               load_end := fadd (toDouble 4.098999999999999) (fsub (toDouble 0.7) (toDouble 4))\<rparr>,
        loadW1\<lparr>load_start := toDouble 1,
               load_end := fadd (toDouble 4.098999999999999) (fsub (toDouble 0.7) (toDouble 4))\<rparr>,
        loadP1\<lparr>load_start := toDouble 1, load_end := toDouble 1\<rparr>]"
proof -
  have h: "findIndex (\<lambda>d. dim_id d = ''d1'') (dimensions fractionBeam) = Some 0"
    by (simp add: example_defs)
  from updateDimension_loads_three_cases [OF h, of "toDouble 0.7"] h
    threshold_4_1_reached threshold_4_1_above_1
  show ?thesis
    by (simp add: example_defs spec_shiftLoad_def)
qed

text \<open>
  C2. When the edited dimension exists, every other dimension whose start is at or after
  \<open>pivot - 0.001\<close> has start and end shifted by \<open>diff = newValue - oldValue\<close>, every
  node whose position is at or after \<open>pivot - 0.001\<close> has its position shifted by
  \<open>diff\<close>, and the other dimensions and nodes, those below the threshold, are as they
  were. The pivot is the original end of the edited dimension; the threshold, \<open>diff\<close>
  and the shifts are the numbers that the program computes.
\<close>

theorem updateDimension_shifts_after_pivot:
  assumes "findIndex (\<lambda>d. dim_id d = dimId) (dimensions s) = Some k"
  shows "let threshold = fsub (dim_end (dimensions s ! k)) (toDouble 0.001);
             diff = fsub newValue (dim_value (dimensions s ! k));
             s' = updateDimension dimId newValue s
         in length (dimensions s') = length (dimensions s)
          \<and> (\<forall>i < length (dimensions s). i \<noteq> k \<longrightarrow>
               dimensions s' ! i =
                 (if dim_start (dimensions s ! i) \<ge> threshold
                  then (dimensions s ! i)
                         \<lparr>dim_start := fadd (dim_start (dimensions s ! i)) diff,
                          dim_end := fadd (dim_end (dimensions s ! i)) diff\<rparr>
                  else dimensions s ! i))
          \<and> length (nodes s') = length (nodes s)
          \<and> (\<forall>i < length (nodes s).
               nodes s' ! i =
                 (if node_position (nodes s ! i) \<ge> threshold
                  then (nodes s ! i)\<lparr>node_position := fadd (node_position (nodes s ! i)) diff\<rparr>
                  else nodes s ! i))"
proof -
  let ?t = "fsub (dim_end (dimensions s ! k)) (toDouble 0.001)"
  let ?d = "fsub newValue (dim_value (dimensions s ! k))"
  have dims: "dimensions (updateDimension dimId newValue s) ! i =
      (if dim_start (dimensions s ! i) \<ge> ?t
       then (dimensions s ! i)
              \<lparr>dim_start := fadd (dim_start (dimensions s ! i)) ?d,
               dim_end := fadd (dim_end (dimensions s ! i)) ?d\<rparr>
       else dimensions s ! i)"
    if "i < length (dimensions s)" "i \<noteq> k" for i
    using that by (simp add: updateDimension_dimensions_other [OF assms] shiftDimension_def)
  have nds: "nodes (updateDimension dimId newValue s) ! i =
      (if node_position (nodes s ! i) \<ge> ?t
       then (nodes s ! i)\<lparr>node_position := fadd (node_position (nodes s ! i)) ?d\<rparr>
       else nodes s ! i)"
    if "i < length (nodes s)" for i
    using that by (simp add: updateDimension_nodes [OF assms] shiftNode_def)
  have len: "length (nodes (updateDimension dimId newValue s)) = length (nodes s)"
    by (simp add: updateDimension_nodes [OF assms])
  from dims nds len show ?thesis
    by (simp add: Let_def updateDimension_dimensions_length)
qed

theorem updateDimension_shifts_after_pivot_witness:
  "findIndex (\<lambda>d. dim_id d = ''d1'') (dimensions fractionBeam) = Some 0
   \<and> dimensions (updateDimension ''d1'' (toDouble 0.7) fractionBeam) ! 1
       = dimL2\<lparr>dim_start := fadd (toDouble 4.098999999999999) (fsub (toDouble 0.7) (toDouble 4)),
               dim_end := fadd (toDouble 6) (fsub (toDouble 0.7) (toDouble 4)),
               dim_value := toDouble 1.9\<rparr>
   \<and> nodes (updateDimension ''d1'' (toDouble 0.7) fractionBeam) ! 0
       = nodeA\<lparr>node_position := toDouble 1\<rparr>
   \<and> nodes (updateDimension ''d1'' (toDouble 0.7) fractionBeam) ! 1
       = nodeB\<lparr>node_position :=
           fadd (toDouble 4.098999999999999) (fsub (toDouble 0.7) (toDouble 4))\<rparr>"
proof -
  let ?s' = "updateDimension ''d1'' (toDouble 0.7) fractionBeam"
  let ?t = "fsub (dim_end (dimensions fractionBeam ! 0)) (toDouble 0.001)"
  let ?d = "fsub (toDouble 0.7) (dim_value (dimensions fractionBeam ! 0))"
  have h: "findIndex (\<lambda>d. dim_id d = ''d1'') (dimensions fractionBeam) = Some 0"
    by (simp add: example_defs)
  note t = updateDimension_shifts_after_pivot [OF h, of "toDouble 0.7", unfolded Let_def]
  from t have d: "1 < length (dimensions fractionBeam) \<longrightarrow> (1::nat) \<noteq> 0 \<longrightarrow>
      dimensions ?s' ! 1 =
        (if dim_start (dimensions fractionBeam ! 1) \<ge> ?t
         then (dimensions fractionBeam ! 1)
           \<lparr>dim_start := fadd (dim_start (dimensions fractionBeam ! 1)) ?d,
            dim_end := fadd (dim_end (dimensions fractionBeam ! 1)) ?d\<rparr>
         else dimensions fractionBeam ! 1)"
    by blast
  from t have n: "i < length (nodes fractionBeam) \<longrightarrow>
      nodes ?s' ! i =
        (if node_position (nodes fractionBeam ! i) \<ge> ?t
         then (nodes fractionBeam ! i)
           \<lparr>node_position := fadd (node_position (nodes fractionBeam ! i)) ?d\<rparr>
         else nodes fractionBeam ! i)" for i
    by blast
  from h d n [of 0] n [of 1] threshold_4_1_reached threshold_4_1_above_1 show ?thesis
    by (simp add: example_defs)
qed

text \<open>
  C3. When the edited dimension exists, its value becomes \<open>newValue\<close>, its end becomes
  its start plus \<open>newValue\<close> (the sum as the program computes it, rounded), and its
  start is unchanged.
\<close>

theorem updateDimension_edited_dimension:
  assumes "findIndex (\<lambda>d. dim_id d = dimId) (dimensions s) = Some k"
  shows "dim_value (dimensions (updateDimension dimId newValue s) ! k) = newValue
    \<and> dim_end (dimensions (updateDimension dimId newValue s) ! k)
        = fadd (dim_start (dimensions s ! k)) newValue
    \<and> dim_start (dimensions (updateDimension dimId newValue s) ! k)
        = dim_start (dimensions s ! k)"
  by (simp add: updateDimension_dimensions_edited [OF assms])

theorem updateDimension_edited_dimension_witness:
  "findIndex (\<lambda>d. dim_id d = ''d1'') (dimensions fractionBeam) = Some 0
   \<and> dim_value (dimensions (updateDimension ''d1'' (toDouble 0.7) fractionBeam) ! 0)
       = toDouble 0.7
   \<and> dim_end (dimensions (updateDimension ''d1'' (toDouble 0.7) fractionBeam) ! 0)
       = toDouble 0.7999999999999999
   \<and> dim_end (dimensions (updateDimension ''d1'' (toDouble 0.7) fractionBeam) ! 0)
       \<noteq> toDouble 0.8
   \<and> dim_start (dimensions (updateDimension ''d1'' (toDouble 0.7) fractionBeam) ! 0)
       = toDouble 0.1"
proof -
  have h: "findIndex (\<lambda>d. dim_id d = ''d1'') (dimensions fractionBeam) = Some 0"
    by (simp add: example_defs)
  from updateDimension_edited_dimension [OF h, of "toDouble 0.7"] h
    sum_0_1_0_7 sum_0_1_0_7_not_0_8
  show ?thesis
    by (simp add: example_defs)
qed

text \<open>
  C4. When the edited dimension exists, the \<open>totalLength\<close> of the result is the maximum
  of the positions of the nodes of the result (for a structure without nodes the
  maximum over nothing, \<open>-Infinity\<close>).
\<close>

theorem updateDimension_totalLength_max:
  assumes "findIndex (\<lambda>d. dim_id d = dimId) (dimensions s) = Some k"
  shows "totalLength (updateDimension dimId newValue s)
           = maxNodePosition (nodes (updateDimension dimId newValue s))"
  by (simp add: updateDimension_totalLength [OF assms] Math_max_maxNodePosition)

theorem updateDimension_totalLength_max_witness:
  "findIndex (\<lambda>d. dim_id d = ''d1'') (dimensions exampleBeam) = Some 0
   \<and> nodes (updateDimension ''d1'' (toDouble 15) exampleBeam)
       = map (shiftNode (toDouble 10) (fsub (toDouble 15) (toDouble 10))) [nodeA, nodeB, nodeC]
   \<and> totalLength (updateDimension ''d1'' (toDouble 15) exampleBeam) = Finite (toDouble 21)"
proof -
  have h: "findIndex (\<lambda>d. dim_id d = ''d1'') (dimensions exampleBeam) = Some 0"
    by (simp add: example_defs)
  have n: "nodes (updateDimension ''d1'' (toDouble 15) exampleBeam)
      = map (shiftNode (toDouble 10) (fsub (toDouble 15) (toDouble 10))) [nodeA, nodeB, nodeC]"
    unfolding updateDimension_nodes [OF h] by (simp add: exampleBeam_def dimL1_def)
  from updateDimension_totalLength_max [OF h, of "toDouble 15"] h show ?thesis
    unfolding n by (simp only: exampleBeam_shifted_max simp_thms)
qed

text \<open>
  C5. For a dimension id that no dimension of the structure has, \<open>updateDimension\<close>
  leaves the structure as it is, whatever the new value; the handler returns the state
  it was given and has no error result.
\<close>

theorem updateDimension_unknown_id:
  assumes "dimId \<notin> dim_id ` set (dimensions s)"
  shows "updateDimension dimId newValue s = s
    \<and> updateDimension_result dimId newValue
         (Some \<lparr>result_structure = s, result_latexCode = code\<rparr>)
       = Some \<lparr>result_structure = s, result_latexCode = code\<rparr>"
proof -
  from assms have "findIndex (\<lambda>d. dim_id d = dimId) (dimensions s) = None"
    by (auto simp: findIndex_None_iff)
  then have "updateDimension dimId newValue s = s"
    by (rule updateDimension_not_found)
  then show ?thesis by (simp add: updateDimension_result_def)
qed

theorem updateDimension_unknown_id_witness:
  "''d9'' \<notin> dim_id ` set (dimensions exampleBeam)
   \<and> updateDimension ''d9'' (toDouble 15) exampleBeam = exampleBeam
   \<and> updateDimension_result ''d9'' (toDouble 15)
         (Some \<lparr>result_structure = exampleBeam, result_latexCode = ''tikz''\<rparr>)
       = Some \<lparr>result_structure = exampleBeam, result_latexCode = ''tikz''\<rparr>"
proof -
  have h: "''d9'' \<notin> dim_id ` set (dimensions exampleBeam)"
    by (simp add: example_defs)
  from updateDimension_unknown_id [OF h, of "toDouble 15" "''tikz''"] h show ?thesis
    by simp
qed

text \<open>
  C10. For a structure that has no nodes and has the edited dimension,
  \<open>updateDimension\<close> sets \<open>totalLength\<close> to \<open>-Infinity\<close>, the maximum of no
  arguments, whatever it was before.
\<close>

theorem updateDimension_no_nodes:
  assumes "nodes s = []"
    and "findIndex (\<lambda>d. dim_id d = dimId) (dimensions s) = Some k"
  shows "totalLength (updateDimension dimId newValue s) = NegInfinity"
  using assms(1) by (simp add: updateDimension_found [OF assms(2)])

theorem updateDimension_no_nodes_witness:
  "nodes noNodesBeam = []
   \<and> findIndex (\<lambda>d. dim_id d = ''d1'') (dimensions noNodesBeam) = Some 0
   \<and> totalLength noNodesBeam = Finite (toDouble 10)
   \<and> totalLength (updateDimension ''d1'' (toDouble 15) noNodesBeam) = NegInfinity
   \<and> totalLength (updateDimension ''d1'' (toDouble 15) noNodesBeam) \<noteq> totalLength noNodesBeam"
proof -
  have h1: "nodes noNodesBeam = []"
    by (simp add: noNodesBeam_def)
  have h2: "findIndex (\<lambda>d. dim_id d = ''d1'') (dimensions noNodesBeam) = Some 0"
    by (simp add: noNodesBeam_def dimL1_def)
  from updateDimension_no_nodes [OF h1 h2, of "toDouble 15"] h1 h2 show ?thesis
    by (simp add: noNodesBeam_def)
qed

text \<open>Fields that the three loops do not write are the same at every index.\<close>

lemma updateDimension_nodes_map:
  assumes "\<And>p d n. f (shiftNode p d n) = f n"
  shows "map f (nodes (updateDimension dimId newValue s)) = map f (nodes s)"
proof (cases "findIndex (\<lambda>d. dim_id d = dimId) (dimensions s)")
  case None
  then show ?thesis by (simp add: updateDimension_not_found)
next
  case (Some k)
  then show ?thesis by (simp add: updateDimension_nodes assms)
qed

lemma updateDimension_loads_map:
  assumes "\<And>p d l. f (shiftLoad p d l) = f l"
  shows "map f (loads (updateDimension dimId newValue s)) = map f (loads s)"
proof (cases "findIndex (\<lambda>d. dim_id d = dimId) (dimensions s)")
  case None
  then show ?thesis by (simp add: updateDimension_not_found)
next
  case (Some k)
  then show ?thesis by (simp add: updateDimension_loads assms)
qed

lemma updateDimension_dimensions_map:
  assumes shift: "\<And>k p df i d. f (shiftDimension k p df (i, d)) = f d"
    and edit: "\<And>d v e. f (d\<lparr>dim_value := v, dim_end := e\<rparr>) = f d"
  shows "map f (dimensions (updateDimension dimId newValue s)) = map f (dimensions s)"
proof (cases "findIndex (\<lambda>d. dim_id d = dimId) (dimensions s)")
  case None
  then show ?thesis by (simp add: updateDimension_not_found)
next
  case (Some k)
  show ?thesis
  proof (rule nth_equalityI)
    show "length (map f (dimensions (updateDimension dimId newValue s)))
        = length (map f (dimensions s))"
      by (simp add: updateDimension_dimensions_length)
  next
    fix i
    assume "i < length (map f (dimensions (updateDimension dimId newValue s)))"
    then have i: "i < length (dimensions s)"
      by (simp add: updateDimension_dimensions_length)
    have "f (dimensions (updateDimension dimId newValue s) ! i) = f (dimensions s ! i)"
    proof (cases "i = k")
      case True
      then show ?thesis by (simp add: updateDimension_dimensions_edited [OF Some] edit)
    next
      case False
      with i show ?thesis by (simp add: updateDimension_dimensions_other [OF Some] shift)
    qed
    with i show "map f (dimensions (updateDimension dimId newValue s)) ! i
        = map f (dimensions s) ! i"
      by (simp add: updateDimension_dimensions_length)
  qed
qed

text \<open>
  C9. Whatever the dimension id and the new value, \<open>updateDimension\<close> keeps the number
  and the order of nodes, loads and dimensions, and keeps in each of them every field
  that is not a position: id, label, supportType and hasHinge of a node; id, type,
  magnitude, unit, symbol and direction of a load; id, unit, symbol and yOffset of a
  dimension.
\<close>

theorem updateDimension_keeps_other_fields:
  "map (\<lambda>n. (node_id n, node_label n, node_supportType n, node_hasHinge n))
       (nodes (updateDimension dimId newValue s))
     = map (\<lambda>n. (node_id n, node_label n, node_supportType n, node_hasHinge n)) (nodes s)
   \<and> map (\<lambda>l. (load_id l, load_type l, load_magnitude l, load_unit l, load_symbol l,
                load_direction l))
       (loads (updateDimension dimId newValue s))
     = map (\<lambda>l. (load_id l, load_type l, load_magnitude l, load_unit l, load_symbol l,
                load_direction l)) (loads s)
   \<and> map (\<lambda>d. (dim_id d, dim_unit d, dim_symbol d, dim_yOffset d))
       (dimensions (updateDimension dimId newValue s))
     = map (\<lambda>d. (dim_id d, dim_unit d, dim_symbol d, dim_yOffset d)) (dimensions s)
   \<and> length (nodes (updateDimension dimId newValue s)) = length (nodes s)
   \<and> length (loads (updateDimension dimId newValue s)) = length (loads s)
   \<and> length (dimensions (updateDimension dimId newValue s)) = length (dimensions s)"
proof -
  let ?s' = "updateDimension dimId newValue s"
  let ?fn = "\<lambda>n. (node_id n, node_label n, node_supportType n, node_hasHinge n)"
  let ?fl = "\<lambda>l. (load_id l, load_type l, load_magnitude l, load_unit l, load_symbol l,
                load_direction l)"
  let ?fd = "\<lambda>d. (dim_id d, dim_unit d, dim_symbol d, dim_yOffset d)"
  have n: "map ?fn (nodes ?s') = map ?fn (nodes s)"
    by (rule updateDimension_nodes_map) (simp add: shiftNode_def)
  have l: "map ?fl (loads ?s') = map ?fl (loads s)"
    by (rule updateDimension_loads_map) (simp add: shiftLoad_def)
  have d: "map ?fd (dimensions ?s') = map ?fd (dimensions s)"
    by (rule updateDimension_dimensions_map) (simp_all add: shiftDimension_def)
  from n have "length (map ?fn (nodes ?s')) = length (map ?fn (nodes s))" by simp
  then have ln: "length (nodes ?s') = length (nodes s)" by simp
  from l have "length (map ?fl (loads ?s')) = length (map ?fl (loads s))" by simp
  then have ll: "length (loads ?s') = length (loads s)" by simp
  from n l d ln ll show ?thesis
    by (simp add: updateDimension_dimensions_length)
qed

text \<open>
  C7, as the code has it. When the edited dimension exists, everything below the
  threshold is unchanged: nodes whose position is below it, loads whose start and end
  are both below it, and dimensions other than the edited one whose start is below it.
  The threshold is the number that the program computes for \<open>pivotX - 0.001\<close>, the
  rounded difference, where the pivot is the original end of the edited dimension.
\<close>

theorem updateDimension_before_threshold_unchanged:
  assumes "findIndex (\<lambda>d. dim_id d = dimId) (dimensions s) = Some k"
  shows "let threshold = fsub (dim_end (dimensions s ! k)) (toDouble 0.001);
             s' = updateDimension dimId newValue s
         in (\<forall>i < length (nodes s).
               node_position (nodes s ! i) < threshold \<longrightarrow> nodes s' ! i = nodes s ! i)
          \<and> (\<forall>i < length (loads s).
               load_start (loads s ! i) < threshold \<and> load_end (loads s ! i) < threshold
               \<longrightarrow> loads s' ! i = loads s ! i)
          \<and> (\<forall>i < length (dimensions s).
               i \<noteq> k \<and> dim_start (dimensions s ! i) < threshold
               \<longrightarrow> dimensions s' ! i = dimensions s ! i)"
proof -
  let ?t = "fsub (dim_end (dimensions s ! k)) (toDouble 0.001)"
  have n: "nodes (updateDimension dimId newValue s) ! i = nodes s ! i"
    if "i < length (nodes s)" "node_position (nodes s ! i) < ?t" for i
    using that by (simp add: updateDimension_nodes [OF assms] shiftNode_def not_le [symmetric])
  have l: "loads (updateDimension dimId newValue s) ! i = loads s ! i"
    if "i < length (loads s)" "load_start (loads s ! i) < ?t" "load_end (loads s ! i) < ?t"
    for i
    using that by (simp add: updateDimension_loads [OF assms] shiftLoad_def not_le [symmetric])
  have d: "dimensions (updateDimension dimId newValue s) ! i = dimensions s ! i"
    if "i < length (dimensions s)" "i \<noteq> k" "dim_start (dimensions s ! i) < ?t" for i
    using that
    by (simp add: updateDimension_dimensions_other [OF assms] shiftDimension_def
        not_le [symmetric])
  from n l d show ?thesis by (simp add: Let_def)
qed

theorem updateDimension_before_threshold_unchanged_witness:
  "findIndex (\<lambda>d. dim_id d = ''d2'') (dimensions exampleBeam) = Some 1
   \<and> nodes (updateDimension ''d2'' (toDouble 15) exampleBeam) ! 0 = nodeA
   \<and> loads (updateDimension ''d2'' (toDouble 15) exampleBeam) ! 0 = loadP0
   \<and> dimensions (updateDimension ''d2'' (toDouble 15) exampleBeam) ! 0 = dimL1"
proof -
  let ?s' = "updateDimension ''d2'' (toDouble 15) exampleBeam"
  let ?t = "fsub (dim_end (dimensions exampleBeam ! 1)) (toDouble 0.001)"
  have h: "findIndex (\<lambda>d. dim_id d = ''d2'') (dimensions exampleBeam) = Some 1"
    by (simp add: example_defs)
  note t = updateDimension_before_threshold_unchanged [OF h, of "toDouble 15", unfolded Let_def]
  from t have n: "0 < length (nodes exampleBeam) \<longrightarrow>
      node_position (nodes exampleBeam ! 0) < ?t \<longrightarrow> nodes ?s' ! 0 = nodes exampleBeam ! 0"
    by blast
  from t have l: "0 < length (loads exampleBeam) \<longrightarrow>
      load_start (loads exampleBeam ! 0) < ?t \<and> load_end (loads exampleBeam ! 0) < ?t \<longrightarrow>
      loads ?s' ! 0 = loads exampleBeam ! 0"
    by blast
  from t have d: "0 < length (dimensions exampleBeam) \<longrightarrow>
      (0::nat) \<noteq> 1 \<and> dim_start (dimensions exampleBeam ! 0) < ?t \<longrightarrow>
      dimensions ?s' ! 0 = dimensions exampleBeam ! 0"
    by blast
  from h n l d threshold_16_above_0 threshold_16_above_3 show ?thesis
    by (simp add: example_defs)
qed

text \<open>
  C7 as stated, with the pivot itself as the bound, fails: a node, a load end and a
  dimension start that lie within 0.001 before the pivot are shifted, and so is a load
  whose end is before the pivot while its start is after it.
\<close>

theorem updateDimension_before_pivot_counterexample:
  "findIndex (\<lambda>d. dim_id d = ''d1'') (dimensions nearPivotBeam) = Some 0
   \<and> node_position (nodes nearPivotBeam ! 1) < dim_end (dimensions nearPivotBeam ! 0)
   \<and> nodes (updateDimension ''d1'' (toDouble 15) nearPivotBeam) ! 1 \<noteq> nodes nearPivotBeam ! 1
   \<and> load_end (loads nearPivotBeam ! 0) < dim_end (dimensions nearPivotBeam ! 0)
   \<and> loads (updateDimension ''d1'' (toDouble 15) nearPivotBeam) ! 0 \<noteq> loads nearPivotBeam ! 0
   \<and> load_end (loads nearPivotBeam ! 1) < dim_end (dimensions nearPivotBeam ! 0)
   \<and> loads (updateDimension ''d1'' (toDouble 15) nearPivotBeam) ! 1 \<noteq> loads nearPivotBeam ! 1
   \<and> load_end (loads nearPivotBeam ! 2) < dim_end (dimensions nearPivotBeam ! 0)
   \<and> loads (updateDimension ''d1'' (toDouble 15) nearPivotBeam) ! 2 \<noteq> loads nearPivotBeam ! 2
   \<and> dim_start (dimensions nearPivotBeam ! 1) < dim_end (dimensions nearPivotBeam ! 0)
   \<and> dimensions (updateDimension ''d1'' (toDouble 15) nearPivotBeam) ! 1
       \<noteq> dimensions nearPivotBeam ! 1"
proof -
  let ?x = "fadd (toDouble 9.9995) (fsub (toDouble 15) (toDouble 10))"
  have h: "findIndex (\<lambda>d. dim_id d = ''d1'') (dimensions nearPivotBeam) = Some 0"
    by (simp add: example_defs)
  have n: "nodes (updateDimension ''d1'' (toDouble 15) nearPivotBeam) ! 1
      = nodeB\<lparr>node_position := ?x\<rparr>"
    unfolding updateDimension_nodes [OF h]
    using threshold_10_reached by (simp add: example_defs shiftNode_def)
  have l: "loads (updateDimension ''d1'' (toDouble 15) nearPivotBeam)
      = [loadP0\<lparr>load_start := ?x, load_end := ?x\<rparr>,
         loadW1\<lparr>load_start := toDouble 4, load_end := ?x\<rparr>,
         loadP1\<lparr>load_start := fadd (toDouble 12) (fsub (toDouble 15) (toDouble 10)),
                load_end := fadd (toDouble 5) (fsub (toDouble 15) (toDouble 10))\<rparr>]"
    unfolding updateDimension_loads [OF h]
    using threshold_10_reached threshold_10_above_4 threshold_10_below_12
    by (simp add: example_defs shiftLoad_spec spec_shiftLoad_def)
  have d: "dimensions (updateDimension ''d1'' (toDouble 15) nearPivotBeam) ! 1
      = dimL2\<lparr>dim_start := ?x,
              dim_end := fadd (toDouble 16) (fsub (toDouble 15) (toDouble 10))\<rparr>"
  proof -
    have "1 < length (dimensions nearPivotBeam)" by (simp add: nearPivotBeam_def)
    from updateDimension_dimensions_other [OF h this, of "toDouble 15"] threshold_10_reached
    show ?thesis
      by (simp add: example_defs shiftDimension_def)
  qed
  from h near_pivot_before_10 five_before_10 near_pivot_shifted five_shifted show ?thesis
    unfolding n l d by (simp add: example_defs)
qed

text \<open>A shift by zero changes nothing, and the difference of a number and itself is
  zero.\<close>

lemma shiftNode_zero: "shiftNode p (toDouble 0) = (\<lambda>n. n)"
  by (rule ext) (simp add: shiftNode_def fadd_zero)

lemma shiftLoad_zero: "shiftLoad p (toDouble 0) = (\<lambda>l. l)"
  by (rule ext) (simp add: shiftLoad_def fadd_zero)

lemma shiftDimension_zero: "shiftDimension k p (toDouble 0) = snd"
  by (rule ext) (simp add: shiftDimension_def fadd_zero split: prod.splits)

text \<open>
  C6, as the code has it. When the edited dimension exists, its end is the sum of its
  start and its value as the program computes that sum, and \<open>totalLength\<close> is the
  maximum node position, then \<open>updateDimension\<close> with the current value of the
  dimension as the new value (so \<open>diff = 0\<close>) returns a structure equal to the one it
  was given.
\<close>

theorem updateDimension_same_value:
  assumes found: "findIndex (\<lambda>d. dim_id d = dimId) (dimensions s) = Some k"
    and span: "dim_end (dimensions s ! k)
        = fadd (dim_start (dimensions s ! k)) (dim_value (dimensions s ! k))"
    and total: "totalLength s = maxNodePosition (nodes s)"
  shows "updateDimension dimId (dim_value (dimensions s ! k)) s = s"
proof -
  let ?d = "dimensions s ! k"
  from span have "fadd (dim_start ?d) (dim_value ?d) = dim_end ?d"
    by simp
  then have "updateDimension dimId (dim_value ?d) s =
      s\<lparr>dimensions := dimensions s, nodes := nodes s, loads := loads s,
        totalLength := Math_max (map node_position (nodes s))\<rparr>"
    unfolding updateDimension_found [OF found]
    by (simp add: fsub_self shiftNode_zero shiftLoad_zero shiftDimension_zero)
  also have "\<dots> = s"
    using total by (simp add: Math_max_maxNodePosition)
  finally show ?thesis .
qed

theorem updateDimension_same_value_witness:
  "findIndex (\<lambda>d. dim_id d = ''d1'') (dimensions exampleBeam) = Some 0
   \<and> dim_end (dimensions exampleBeam ! 0)
       = fadd (dim_start (dimensions exampleBeam ! 0)) (dim_value (dimensions exampleBeam ! 0))
   \<and> totalLength exampleBeam = maxNodePosition (nodes exampleBeam)
   \<and> dim_value (dimensions exampleBeam ! 0) = toDouble 10
   \<and> updateDimension ''d1'' (toDouble 10) exampleBeam = exampleBeam"
proof -
  have h1: "findIndex (\<lambda>d. dim_id d = ''d1'') (dimensions exampleBeam) = Some 0"
    by (simp add: example_defs)
  have h2: "dim_end (dimensions exampleBeam ! 0)
       = fadd (dim_start (dimensions exampleBeam ! 0)) (dim_value (dimensions exampleBeam ! 0))"
    using sum_0_10 by (simp add: example_defs)
  have h3: "totalLength exampleBeam = maxNodePosition (nodes exampleBeam)"
    using exampleBeam_max by (simp add: exampleBeam_def)
  have v: "dim_value (dimensions exampleBeam ! 0) = toDouble 10"
    by (simp add: example_defs)
  from updateDimension_same_value [OF h1 h2 h3] h1 h2 h3 v show ?thesis
    by simp
qed

text \<open>
  C6 as stated, for every structure, fails: the edit recomputes the end of the dimension
  from its start and value, and \<open>totalLength\<close> from the nodes, so a structure in which
  either disagrees is changed by an edit with \<open>diff = 0\<close>. The third structure has a
  span from 0.1 to 0.3 of length 0.2: the program's sum of 0.1 and 0.2 is not 0.3, and
  the edit changes the end.
\<close>

theorem updateDimension_same_value_counterexample:
  "findIndex (\<lambda>d. dim_id d = ''d1'') (dimensions mislabelledBeam) = Some 0
   \<and> dim_value (dimensions mislabelledBeam ! 0) = toDouble 8
   \<and> updateDimension ''d1'' (toDouble 8) mislabelledBeam \<noteq> mislabelledBeam
   \<and> findIndex (\<lambda>d. dim_id d = ''d1'') (dimensions staleLengthBeam) = Some 0
   \<and> dim_value (dimensions staleLengthBeam ! 0) = toDouble 10
   \<and> updateDimension ''d1'' (toDouble 10) staleLengthBeam \<noteq> staleLengthBeam
   \<and> findIndex (\<lambda>d. dim_id d = ''d1'') (dimensions decimalSpanBeam) = Some 0
   \<and> dim_value (dimensions decimalSpanBeam ! 0) = toDouble 0.2
   \<and> updateDimension ''d1'' (toDouble 0.2) decimalSpanBeam \<noteq> decimalSpanBeam"
proof -
  have h1: "findIndex (\<lambda>d. dim_id d = ''d1'') (dimensions mislabelledBeam) = Some 0"
    by (simp add: example_defs)
  have h2: "findIndex (\<lambda>d. dim_id d = ''d1'') (dimensions staleLengthBeam) = Some 0"
    by (simp add: example_defs)
  have h3: "findIndex (\<lambda>d. dim_id d = ''d1'') (dimensions decimalSpanBeam) = Some 0"
    by (simp add: example_defs)
  have "dim_end (dimensions (updateDimension ''d1'' (toDouble 8) mislabelledBeam) ! 0)
      \<noteq> dim_end (dimensions mislabelledBeam ! 0)"
    unfolding updateDimension_dimensions_edited [OF h1]
    using sum_0_8_not_10 by (simp add: example_defs)
  then have c1: "updateDimension ''d1'' (toDouble 8) mislabelledBeam \<noteq> mislabelledBeam"
    by auto
  have "totalLength (updateDimension ''d1'' (toDouble 10) staleLengthBeam)
      = maxNodePosition [nodeA, nodeB]"
    unfolding updateDimension_totalLength [OF h2] Math_max_maxNodePosition
      updateDimension_nodes [OF h2]
    by (simp add: example_defs fsub_self shiftNode_zero)
  with staleLengthBeam_max
  have "totalLength (updateDimension ''d1'' (toDouble 10) staleLengthBeam)
      \<noteq> totalLength staleLengthBeam"
    by (simp add: staleLengthBeam_def)
  then have c2: "updateDimension ''d1'' (toDouble 10) staleLengthBeam \<noteq> staleLengthBeam"
    by auto
  have "dim_end (dimensions (updateDimension ''d1'' (toDouble 0.2) decimalSpanBeam) ! 0)
      \<noteq> dim_end (dimensions decimalSpanBeam ! 0)"
    unfolding updateDimension_dimensions_edited [OF h3]
    using sum_0_1_0_2_not_0_3 by (simp add: example_defs)
  then have c3: "updateDimension ''d1'' (toDouble 0.2) decimalSpanBeam \<noteq> decimalSpanBeam"
    by auto
  from h1 h2 h3 c1 c2 c3 show ?thesis
    by (simp add: example_defs)
qed

section \<open>Properties of the load-field editor\<close>

text \<open>The fields read by \<open>getField\<close> are all the fields of a load, and an assignment
  is seen by \<open>getField\<close> at its own field only.\<close>

lemma getField_determines_load:
  fixes l l' :: BeamLoad
  assumes "\<And>f. getField f l = getField f l'"
  shows "l = l'"
proof -
  from assms [of F_id] assms [of F_type] assms [of F_start] assms [of F_end]
    assms [of F_magnitude] assms [of F_unit] assms [of F_symbol] assms [of F_direction]
  show ?thesis by simp
qed

lemma getField_assignField:
  "getField f (assignField a l) = (if f = assignedField a then assignedValue a else getField f l)"
  by (cases a; cases f) simp_all

lemma updateLoad_found:
  assumes "findIndex (\<lambda>l. load_id l = loadId) (loads s) = Some idx"
  shows "updateLoad loadId a s = s\<lparr>loads := (loads s)[idx := assignField a (loads s ! idx)]\<rparr>"
  using assms by (simp add: updateLoad_def)

lemma updateLoad_not_found:
  assumes "findIndex (\<lambda>l. load_id l = loadId) (loads s) = None"
  shows "updateLoad loadId a s = s"
  using assms by (simp add: updateLoad_def)

lemma updateLoad_result_Some:
  "updateLoad_result loadId a (Some r) =
     Some \<lparr>result_structure = updateLoad loadId a (result_structure r),
           result_latexCode = result_latexCode r\<rparr>"
  by (simp add: updateLoad_result_def)

lemma updateLoad_result_None: "updateLoad_result loadId a None = None"
  by (simp add: updateLoad_result_def)

text \<open>
  C8. \<open>updateLoad\<close> leaves nodes, dimensions, \<open>totalLength\<close> and the number of loads
  as they are. If no load has the given id, the structure is unchanged. Otherwise, in
  the first load with that id, the named field holds the given value and every other
  field is as before, and every other load is unchanged.
\<close>

theorem updateLoad_changes_one_field:
  "nodes (updateLoad loadId a s) = nodes s
   \<and> dimensions (updateLoad loadId a s) = dimensions s
   \<and> totalLength (updateLoad loadId a s) = totalLength s
   \<and> length (loads (updateLoad loadId a s)) = length (loads s)
   \<and> (loadId \<notin> load_id ` set (loads s) \<longrightarrow> updateLoad loadId a s = s)
   \<and> (\<forall>idx. findIndex (\<lambda>l. load_id l = loadId) (loads s) = Some idx \<longrightarrow>
         idx < length (loads s)
         \<and> load_id (loads s ! idx) = loadId
         \<and> getField (assignedField a) (loads (updateLoad loadId a s) ! idx) = assignedValue a
         \<and> (\<forall>f. f \<noteq> assignedField a \<longrightarrow>
               getField f (loads (updateLoad loadId a s) ! idx) = getField f (loads s ! idx))
         \<and> (\<forall>j < length (loads s). j \<noteq> idx \<longrightarrow>
               loads (updateLoad loadId a s) ! j = loads s ! j))"
proof (cases "findIndex (\<lambda>l. load_id l = loadId) (loads s)")
  case None
  then show ?thesis by (simp add: updateLoad_not_found)
next
  case (Some idx)
  then have idx: "idx < length (loads s)" by (rule findIndex_Some_less)
  from Some have hit: "load_id (loads s ! idx) = loadId" by (rule findIndex_Some_holds)
  from idx have "load_id (loads s ! idx) \<in> load_id ` set (loads s)"
    by simp
  with hit have "loadId \<in> load_id ` set (loads s)"
    by simp
  with Some idx hit show ?thesis
    by (simp add: updateLoad_found [OF Some] getField_assignField)
qed

theorem updateLoad_changes_one_field_witness:
  "findIndex (\<lambda>l. load_id l = ''l2'') (loads exampleBeam) = Some 1
   \<and> updateLoad ''l2'' (Set_magnitude (toDouble 3)) exampleBeam
       = exampleBeam\<lparr>loads := [loadP0, loadW1\<lparr>load_magnitude := toDouble 3\<rparr>, loadP1]\<rparr>
   \<and> ''l9'' \<notin> load_id ` set (loads exampleBeam)
   \<and> updateLoad ''l9'' (Set_magnitude (toDouble 3)) exampleBeam = exampleBeam"
proof -
  let ?s' = "updateLoad ''l2'' (Set_magnitude (toDouble 3)) exampleBeam"
  have h: "findIndex (\<lambda>l. load_id l = ''l2'') (loads exampleBeam) = Some 1"
    by (simp add: example_defs)
  have m: "''l9'' \<notin> load_id ` set (loads exampleBeam)"
    by (simp add: example_defs)
  note t = updateLoad_changes_one_field [of "''l2''" "Set_magnitude (toDouble 3)" exampleBeam]
  note u = updateLoad_changes_one_field [of "''l9''" "Set_magnitude (toDouble 3)" exampleBeam]
  from t h have frame: "nodes ?s' = nodes exampleBeam" "dimensions ?s' = dimensions exampleBeam"
      "totalLength ?s' = totalLength exampleBeam" "length (loads ?s') = 3"
    by (simp_all add: exampleBeam_def)
  from t h have other: "j < length (loads exampleBeam) \<longrightarrow> j \<noteq> 1 \<longrightarrow>
      loads ?s' ! j = loads exampleBeam ! j" for j
    by blast
  from t h have fields: "getField f (loads ?s' ! 1)
      = (if f = F_magnitude then V_number (toDouble 3) else getField f (loads exampleBeam ! 1))" for f
    by (cases "f = F_magnitude") auto
  have "getField f (loads ?s' ! 1) = getField f (loadW1\<lparr>load_magnitude := toDouble 3\<rparr>)" for f
    unfolding fields by (cases f) (simp_all add: exampleBeam_def)
  then have l1: "loads ?s' ! 1 = loadW1\<lparr>load_magnitude := toDouble 3\<rparr>"
    by (rule getField_determines_load)
  from other [of 0] have l0: "loads ?s' ! 0 = loadP0" by (simp add: exampleBeam_def)
  from other [of 2] have l2: "loads ?s' ! 2 = loadP1" by (simp add: exampleBeam_def)
  have "loads ?s' = [loadP0, loadW1\<lparr>load_magnitude := toDouble 3\<rparr>, loadP1]"
  proof (rule nth_equalityI)
    show "length (loads ?s') = length [loadP0, loadW1\<lparr>load_magnitude := toDouble 3\<rparr>, loadP1]"
      using frame(4) by simp
  next
    fix i assume "i < length (loads ?s')"
    with frame(4) have "i = 0 \<or> i = 1 \<or> i = 2" by auto
    with l0 l1 l2 show "loads ?s' ! i = [loadP0, loadW1\<lparr>load_magnitude := toDouble 3\<rparr>, loadP1] ! i"
      by auto
  qed
  with frame(1-3) have "?s' = exampleBeam\<lparr>loads := [loadP0, loadW1\<lparr>load_magnitude := toDouble 3\<rparr>, loadP1]\<rparr>"
    by (intro BeamStructure.equality) simp_all
  moreover from u m have "updateLoad ''l9'' (Set_magnitude (toDouble 3)) exampleBeam = exampleBeam"
    by blast
  ultimately show ?thesis using h m by simp
qed

end
